theory Spec2Isabelle
  imports Main
begin

section \<open>Strings and values of the script\<close>

text \<open>
  A JavaScript string is a finite sequence of code units; \<open>.length\<close> counts them and
  \<open>===\<close> on two strings compares them unit by unit. The model writes a string as a
  \<^typ>\<open>string\<close>, one \<^typ>\<open>char\<close> per code unit, which gives the strings of code
  units below 256. The script only compares units and tests them against the ASCII
  classes of its three regular expressions.
\<close>

definition is_digit :: "char \<Rightarrow> bool" where
  "is_digit c = (let n = (of_char c :: nat) in 48 \<le> n \<and> n \<le> 57)"

definition is_letter :: "char \<Rightarrow> bool" where
  "is_letter c = (let n = (of_char c :: nat) in (97 \<le> n \<and> n \<le> 122) \<or> (65 \<le> n \<and> n \<le> 90))"

text \<open>The class \<open>\w\<close> of a regular expression without flags: \<open>[A-Za-z0-9_]\<close>.\<close>

definition is_word :: "char \<Rightarrow> bool" where
  "is_word c = (is_letter c \<or> is_digit c \<or> c = CHR ''_'')"

text \<open>
  The values that a property read of a replacement object returns: numbers (the
  integer parameters \<open>min\<close> and \<open>max\<close>), strings, \<open>undefined\<close> where there is no such
  property, and the objects and functions that every object inherits from
  \<open>Object.prototype\<close>. An object is written with the string that ToString gives for
  it. \<open>null\<close> and the booleans complete the primitive values that \<open>||\<close> tells apart.
\<close>

datatype jsval = JUndefined | JNull | JBool bool | JNum int | JStr string | JObject string

text \<open>
  ToBoolean: \<open>undefined\<close>, \<open>null\<close>, \<open>false\<close>, \<open>0\<close> and \<open>""\<close> are falsy, every object is
  truthy.
\<close>

fun truthy :: "jsval \<Rightarrow> bool" where
  "truthy JUndefined = False"
| "truthy JNull = False"
| "truthy (JBool b) = b"
| "truthy (JNum n) = (n \<noteq> 0)"
| "truthy (JStr s) = (s \<noteq> [])"
| "truthy (JObject s) = True"

text \<open>The operator \<open>a || b\<close>: \<open>a\<close> when it is truthy, else \<open>b\<close>.\<close>

definition js_or :: "jsval \<Rightarrow> jsval \<Rightarrow> jsval" where
  "js_or a b = (if truthy a then a else b)"

definition digit_char :: "nat \<Rightarrow> char" where
  "digit_char d = ''0123456789'' ! d"

fun show_nat :: "nat \<Rightarrow> string" where
  "show_nat n = (if n < 10 then [digit_char n] else show_nat (n div 10) @ [digit_char (n mod 10)])"

declare show_nat.simps [simp del]

subsection \<open>Number::toString\<close>

text \<open>
  A number is a double. The double nearest to a natural number, ties to the even
  significand: below \<open>2^53\<close> every natural number is a double; above, a double is a
  53-bit significand \<open>q\<close> times a power of two.
\<close>

fun bitlen :: "nat \<Rightarrow> nat" where
  "bitlen n = (if n = 0 then 0 else 1 + bitlen (n div 2))"

declare bitlen.simps [simp del]

definition round_double :: "nat \<Rightarrow> nat" where
  "round_double x =
     (if x < 2 ^ 53 then x
      else (let e = bitlen x - 53; q = x div 2 ^ e; r = x mod 2 ^ e in
            (if 2 * r > 2 ^ e \<or> (2 * r = 2 ^ e \<and> odd q) then q + 1 else q) * 2 ^ e))"

text \<open>
  Whether the natural number \<open>v\<close> rounds to the double \<open>x\<close>, for \<open>x\<close> from \<open>2^53\<close> on:
  \<open>v\<close> lies no further from \<open>x\<close> than half the gap to the next double on its side,
  the bounds included when the significand of \<open>x\<close> is even. The gap below a power of
  two is half the gap above it.
\<close>

definition rounds_to :: "nat \<Rightarrow> nat \<Rightarrow> bool" where
  "rounds_to x v =
     (let e = bitlen x - 53; q = x div 2 ^ e;
          gu = 2 ^ e; gl = (if q = 2 ^ 52 then 2 ^ (e - 1) else 2 ^ e)
      in if even q then 2 * x \<le> 2 * v + gl \<and> 2 * v \<le> 2 * x + gu
         else 2 * x < 2 * v + gl \<and> 2 * v < 2 * x + gu)"

text \<open>
  The number with the fewest significant digits that rounds to the double \<open>x\<close> of
  \<open>n\<close> digits: with \<open>k\<close> significant digits the candidates are the two multiples of
  \<open>10^(n-k)\<close> around \<open>x\<close>. Of two candidates the one nearer to \<open>x\<close> is taken, and the
  even one when they are equally near, as the engines do. With \<open>k = n\<close> the candidate
  is \<open>x\<close> itself, so the last case is never reached.
\<close>

function shortest :: "nat \<Rightarrow> nat \<Rightarrow> nat \<Rightarrow> nat" where
  "shortest x k n =
     (let p = 10 ^ (n - k); lo = (x div p) * p; hi = lo + p in
      if rounds_to x lo \<and> rounds_to x hi then
        (if x - lo < hi - x then lo
         else if hi - x < x - lo then hi
         else if even (lo div p) then lo else hi)
      else if rounds_to x lo then lo
      else if rounds_to x hi then hi
      else if k < n then shortest x (Suc k) n
      else x)"
  by pat_completeness auto
termination
  by (relation "measure (\<lambda>(x, k, n). n - k)") auto

declare shortest.simps [simp del]

text \<open>
  Number::toString on a natural number: the decimal numeral below \<open>2^53\<close>. From there
  on the shortest number that rounds to the double is printed, as a decimal numeral
  when it has at most 21 digits, else with its significant digits and an exponent.
  A natural number that is no double stands for the double a numeric literal of
  that value denotes, the nearest one; beyond the largest double that is \<open>Infinity\<close>.
\<close>

definition number_text :: "nat \<Rightarrow> string" where
  "number_text x =
     (let d = round_double x in
      if d \<ge> 2 ^ 1024 then ''Infinity''
      else if d < 2 ^ 53 then show_nat d
      else (let v = shortest d 1 (length (show_nat d)); n = length (show_nat v) in
            if n \<le> 21 then show_nat v
            else (case rev (dropWhile (\<lambda>c. c = CHR ''0'') (rev (show_nat v))) of
                    [] \<Rightarrow> []
                  | c # cs \<Rightarrow>
                      (if cs = [] then [c] else c # CHR ''.'' # cs) @ ''e+'' @ show_nat (n - 1))))"

text \<open>Number::toString on an integer: a minus sign below zero.\<close>

definition number_to_string :: "int \<Rightarrow> string" where
  "number_to_string i =
     (if i < 0 then CHR ''-'' # number_text (nat (- i)) else number_text (nat i))"

text \<open>Reading a decimal numeral.\<close>

definition read_nat :: "string \<Rightarrow> nat" where
  "read_nat s = foldl (\<lambda>a c. 10 * a + (of_char c - 48)) 0 s"

text \<open>ToString, applied by \<open>String.prototype.replace\<close> to what its callback returns.\<close>

fun to_string :: "jsval \<Rightarrow> string" where
  "to_string JUndefined = ''undefined''"
| "to_string JNull = ''null''"
| "to_string (JBool b) = (if b then ''true'' else ''false'')"
| "to_string (JNum n) = number_to_string n"
| "to_string (JStr s) = s"
| "to_string (JObject s) = s"

section \<open>replaceWithPlaceholders\<close>

text \<open>
  One attempt of the expression \<open>/{(\w+)}/\<close> at the head of a string: an opening brace,
  the longest run of word characters, which must not be empty, and a closing brace.
  The result is the captured identifier and the text after the match. A shorter run
  is followed by a word character, never by the brace, so backtracking finds nothing
  more.
\<close>

fun match_placeholder :: "string \<Rightarrow> (string \<times> string) option" where
  "match_placeholder [] = None"
| "match_placeholder (c # t) =
     (if c = CHR ''{'' then
        (let w = takeWhile is_word t in
         if w = [] then None
         else (case dropWhile is_word t of
                 [] \<Rightarrow> None
               | d # r \<Rightarrow> if d = CHR ''}'' then Some (w, r) else None))
      else None)"

lemma match_placeholder_shorter:
  "match_placeholder s = Some (w, r) \<Longrightarrow> length r < length s"
proof (cases s)
  case Nil
  assume "match_placeholder s = Some (w, r)"
  with Nil show ?thesis by simp
next
  case (Cons c t)
  assume m: "match_placeholder s = Some (w, r)"
  have "length (dropWhile is_word t) \<le> length t"
    by (rule length_dropWhile_le)
  moreover from m Cons have "\<exists>d. dropWhile is_word t = d # r"
    by (auto simp: Let_def split: if_splits list.splits)
  ultimately show ?thesis using Cons by auto
qed

text \<open>
  \<open>string.replace(re, fn)\<close> with the global flag: the string is scanned from the left;
  where the expression matches, the match is replaced by what \<open>fn\<close> returns for the
  captured identifier and the scan goes on behind the match; elsewhere the character
  is copied.
\<close>

function replace_all :: "(string \<Rightarrow> string) \<Rightarrow> string \<Rightarrow> string" where
  "replace_all fn [] = []"
| "replace_all fn (c # t) =
     (case match_placeholder (c # t) of
        Some (w, r) \<Rightarrow> fn w @ replace_all fn r
      | None \<Rightarrow> c # replace_all fn t)"
  by pat_completeness auto
termination
  by (relation "measure (\<lambda>(fn, s). length s)")
    (auto dest!: match_placeholder_shorter simp del: match_placeholder.simps)

text \<open>
  The properties that an object literal inherits from \<open>Object.prototype\<close>: its
  methods, the function \<open>Object\<close> as \<open>constructor\<close>, and \<open>__proto__\<close>, which reads as
  \<open>Object.prototype\<close> itself. The text of a native function is the engine's; the
  model writes the text that V8 and JavaScriptCore give.
\<close>

definition Object_prototype :: "string \<rightharpoonup> jsval" where
  "Object_prototype name =
     (if name = ''constructor'' then Some (JObject ''function Object() { [native code] }'')
      else if name = ''__proto__'' then Some (JObject ''[object Object]'')
      else if name \<in> set [''hasOwnProperty'', ''isPrototypeOf'', ''propertyIsEnumerable'',
                 ''toLocaleString'', ''toString'', ''valueOf'', ''__defineGetter__'',
                 ''__defineSetter__'', ''__lookupGetter__'', ''__lookupSetter__'']
      then Some (JObject (''function '' @ name @ ''() { [native code] }''))
      else None)"

text \<open>
  The property read \<open>object[name]\<close> on an object literal with the own properties
  \<open>object\<close>: an own property first, then an inherited one, else \<open>undefined\<close>.
\<close>

definition lookup :: "(string \<rightharpoonup> jsval) \<Rightarrow> string \<Rightarrow> jsval" where
  "lookup object name =
     (case object name of
        Some v \<Rightarrow> v
      | None \<Rightarrow> (case Object_prototype name of Some v \<Rightarrow> v | None \<Rightarrow> JUndefined))"

text \<open>The callback of \<open>replaceWithPlaceholders\<close>.\<close>

definition placeholder_value :: "(string \<rightharpoonup> jsval) \<Rightarrow> bool \<Rightarrow> string \<Rightarrow> string" where
  "placeholder_value replacements unwrap placeholderWithoutDelimiters =
     to_string (js_or (lookup replacements placeholderWithoutDelimiters)
       (JStr (if unwrap then placeholderWithoutDelimiters
              else CHR ''{'' # placeholderWithoutDelimiters @ ''}'')))"

definition replaceWithPlaceholders :: "string \<Rightarrow> (string \<rightharpoonup> jsval) \<Rightarrow> bool \<Rightarrow> string" where
  "replaceWithPlaceholders string replacements unwrap =
     replace_all (placeholder_value replacements unwrap) string"

section \<open>The validations\<close>

text \<open>
  A validator returns \<open>true\<close> or an error string; \<open>validate\<close> tells the two apart with
  \<open>typeof error === 'string'\<close>.
\<close>

datatype outcome = Valid | Invalid string

text \<open>
  A validator is a closure over its parameters. The only thing it reads besides its
  argument is the page, through the global function \<open>getValue\<close>; the model passes it
  that function as it stands when the validator is called.
\<close>

type_synonym validation = "(string \<Rightarrow> string) \<Rightarrow> string \<Rightarrow> outcome"

definition required :: validation where
  "required getValue value =
     (if length value > 0 then Valid else Invalid ''The {attribute} field is required.'')"

text \<open>The classes \<open>[a-zA-Z+\d]\<close> and \<open>[a-zA-Z\d]\<close> of the email expression.\<close>

definition is_local :: "char \<Rightarrow> bool" where
  "is_local c = (is_letter c \<or> c = CHR ''+'' \<or> is_digit c)"

definition is_alnum :: "char \<Rightarrow> bool" where
  "is_alnum c = (is_letter c \<or> is_digit c)"

text \<open>
  One attempt of \<open>/[a-zA-Z+\d]+@[a-zA-Z\d]+\.[a-zA-Z\d]+/\<close> at the head of a string.
  Each run is followed by a character outside its class, so only the longest run can
  be continued.
\<close>

definition email_match_here :: "string \<Rightarrow> bool" where
  "email_match_here s =
     (takeWhile is_local s \<noteq> [] \<and>
      (case dropWhile is_local s of
         [] \<Rightarrow> False
       | c # t \<Rightarrow>
           c = CHR ''@'' \<and> takeWhile is_alnum t \<noteq> [] \<and>
           (case dropWhile is_alnum t of
              [] \<Rightarrow> False
            | d # u \<Rightarrow> d = CHR ''.'' \<and> (case u of [] \<Rightarrow> False | x # _ \<Rightarrow> is_alnum x))))"

text \<open>\<open>re.test(value)\<close>: the expression is not anchored, every start position is tried.\<close>

fun email_test :: "string \<Rightarrow> bool" where
  "email_test [] = False"
| "email_test (c # t) = (email_match_here (c # t) \<or> email_test t)"

definition email :: validation where
  "email getValue value =
     (if email_test value then Valid
      else Invalid ''The {attribute} must be a valid email address.'')"

text \<open>
  The length validators; \<open>mn\<close> and \<open>mx\<close> are the parameters \<open>min\<close> and \<open>max\<close>, and
  \<open>{min}\<close> is the object with the one property \<open>min\<close>.
\<close>

definition minLength :: "int \<Rightarrow> validation" where
  "minLength mn getValue value =
     (if int (length value) \<ge> mn then Valid
      else Invalid (replaceWithPlaceholders
             ''The {attribute} must be at least {min} characters.''
             [''min'' \<mapsto> JNum mn] False))"

definition maxLength :: "int \<Rightarrow> validation" where
  "maxLength mx getValue value =
     (if int (length value) \<le> mx then Valid
      else Invalid (replaceWithPlaceholders
             ''The {attribute} must not be greater than {max} characters''
             [''max'' \<mapsto> JNum mx] False))"

definition betweenLength :: "int \<Rightarrow> int \<Rightarrow> validation" where
  "betweenLength mn mx getValue value =
     (if int (length value) \<le> mn \<and> int (length value) \<ge> mx then Valid
      else Invalid (replaceWithPlaceholders
             ''The {attribute} must be between {min} and {max} characters.''
             [''min'' \<mapsto> JNum mn, ''max'' \<mapsto> JNum mx] False))"

definition confirmation :: "string \<Rightarrow> validation" where
  "confirmation originalAttribute getValue value =
     (let originalValue = getValue originalAttribute in
      if value = originalValue then Valid
      else Invalid ''The {attribute} confirmation does not match.'')"

section \<open>The page\<close>

text \<open>
  The calls \<open>validate\<close> makes, in the order it makes them: a validator applied to a
  field's value, with what it returned, and \<open>displayError\<close> with its two arguments.
  \<open>hideError\<close> is \<open>displayError\<close> with the empty message.
\<close>

datatype call = Validation string string outcome | DisplayError string string

text \<open>
  The page as the script sees it: the value of the input with a given name, the text
  of the \<open>.form-text\<close> element in that input's form group, and the calls made so far,
  oldest first. The markup is not part of the sources; the model takes every field to
  have an input and a form group of its own.
\<close>

record page =
  inputs :: "string \<Rightarrow> string"
  form_text :: "string \<Rightarrow> string"
  trace :: "call list"

definition getValue :: "string \<Rightarrow> page \<Rightarrow> string" where
  "getValue attribute p = inputs p attribute"

definition displayError :: "string \<Rightarrow> string \<Rightarrow> page \<Rightarrow> page" where
  "displayError attribute error p =
     p\<lparr>form_text := (form_text p)(attribute := error),
       trace := trace p @ [DisplayError attribute error]\<rparr>"

definition hideError :: "string \<Rightarrow> page \<Rightarrow> page" where
  "hideError attribute p = displayError attribute [] p"

section \<open>validate\<close>

text \<open>\<open>LABELS[attribute] || attribute\<close>, for a table of labels.\<close>

definition label_of :: "(string \<rightharpoonup> string) \<Rightarrow> string \<Rightarrow> jsval" where
  "label_of labels attribute =
     js_or (lookup (map_option JStr \<circ> labels) attribute) (JStr attribute)"

text \<open>
  The inner loop of \<open>validate\<close> over the validators of one field. The value is read
  again before every validator; \<open>break\<close> ends the loop at the first error string.
  The call of the validator is written to the trace before the call of
  \<open>displayError\<close> or \<open>hideError\<close> that follows it.
\<close>

fun validations_loop ::
  "(string \<rightharpoonup> string) \<Rightarrow> string \<Rightarrow> validation list \<Rightarrow> bool \<Rightarrow> page \<Rightarrow> bool \<times> page" where
  "validations_loop labels attribute [] isValid p = (isValid, p)"
| "validations_loop labels attribute (validation # rest) isValid p =
     (let value = getValue attribute p;
          error = validation (\<lambda>a. getValue a p) value;
          p1 = p\<lparr>trace := trace p @ [Validation attribute value error]\<rparr>
      in case error of
           Invalid e \<Rightarrow>
             (False,
              displayError attribute
                (replaceWithPlaceholders e [''attribute'' \<mapsto> label_of labels attribute] True) p1)
         | Valid \<Rightarrow> validations_loop labels attribute rest isValid (hideError attribute p1))"

text \<open>The outer loop, over \<open>Object.entries(settings)\<close>.\<close>

fun settings_loop ::
  "(string \<rightharpoonup> string) \<Rightarrow> (string \<times> validation list) list \<Rightarrow> bool \<Rightarrow> page \<Rightarrow> bool \<times> page" where
  "settings_loop labels [] isValid p = (isValid, p)"
| "settings_loop labels ((attribute, validations) # rest) isValid p =
     (case validations_loop labels attribute validations isValid p of
        (isValid', p') \<Rightarrow> settings_loop labels rest isValid' p')"

text \<open>
  \<open>validate\<close> with the two constants it closes over made parameters: the table of
  labels and the entries of the settings object, in the order \<open>Object.entries\<close> lists
  them.
\<close>

definition validate_with ::
  "(string \<rightharpoonup> string) \<Rightarrow> (string \<times> validation list) list \<Rightarrow> page \<Rightarrow> bool \<times> page" where
  "validate_with labels entries p = settings_loop labels entries True p"

definition LABELS :: "string \<rightharpoonup> string" where
  "LABELS = [''confirm-password'' \<mapsto> ''password'']"

definition settings :: "(string \<times> validation list) list" where
  "settings =
     [(''name'', [required]),
      (''email'', [required, email]),
      (''username'', [required, betweenLength 3 16]),
      (''password'', [required, minLength 3]),
      (''confirm-password'', [confirmation ''password''])]"

definition validate :: "page \<Rightarrow> bool \<times> page" where
  "validate p = validate_with LABELS settings p"

text \<open>The calls made between two states of the page.\<close>

definition emitted :: "page \<Rightarrow> page \<Rightarrow> call list" where
  "emitted p p' = drop (length (trace p)) (trace p')"

fun call_attribute :: "call \<Rightarrow> string" where
  "call_attribute (Validation a v r) = a"
| "call_attribute (DisplayError a m) = a"

text \<open>The calls that concern one field, and the messages displayed for it.\<close>

definition calls_for :: "string \<Rightarrow> call list \<Rightarrow> call list" where
  "calls_for a cs = filter (\<lambda>c. call_attribute c = a) cs"

fun displayed :: "string \<Rightarrow> call list \<Rightarrow> string list" where
  "displayed a [] = []"
| "displayed a (DisplayError b m # cs) = (if b = a then m # displayed a cs else displayed a cs)"
| "displayed a (Validation b v r # cs) = displayed a cs"

text \<open>
  The calls the inner loop makes for one field, as a function of the values of the
  inputs: what \<open>validations_loop\<close> appends to the trace.
\<close>

fun field_calls ::
  "(string \<rightharpoonup> string) \<Rightarrow> (string \<Rightarrow> string) \<Rightarrow> string \<Rightarrow> validation list \<Rightarrow> call list" where
  "field_calls labels vals a [] = []"
| "field_calls labels vals a (r # rs) =
     (case r vals (vals a) of
        Invalid e \<Rightarrow>
          [Validation a (vals a) (Invalid e),
           DisplayError a
             (replaceWithPlaceholders e [''attribute'' \<mapsto> label_of labels a] True)]
      | Valid \<Rightarrow>
          Validation a (vals a) Valid # DisplayError a [] # field_calls labels vals a rs)"

section \<open>Placeholders in a template\<close>

lemma not_word_braces: "\<not> is_word CHR ''{''" "\<not> is_word CHR ''}''"
  by (simp_all add: is_word_def is_letter_def is_digit_def)

lemma takeWhile_word_token:
  "\<forall>c\<in>set x. is_word c \<Longrightarrow> takeWhile is_word (x @ CHR ''}'' # post) = x"
  by (simp add: not_word_braces)

lemma dropWhile_word_token:
  "\<forall>c\<in>set x. is_word c \<Longrightarrow> dropWhile is_word (x @ CHR ''}'' # post) = CHR ''}'' # post"
  by (simp add: not_word_braces)

lemma match_placeholder_token:
  "x \<noteq> [] \<Longrightarrow> \<forall>c\<in>set x. is_word c \<Longrightarrow>
   match_placeholder (CHR ''{'' # x @ CHR ''}'' # post) = Some (x, post)"
  by (simp add: takeWhile_word_token dropWhile_word_token not_word_braces)

lemma match_placeholder_append:
  assumes "match_placeholder s = Some (w, r)"
  shows "match_placeholder (s @ u) = Some (w, r @ u)"
proof (cases s)
  case Nil
  with assms show ?thesis by simp
next
  case (Cons c t)
  with assms have c: "c = CHR ''{''" and w: "w = takeWhile is_word t" "w \<noteq> []"
    and d: "dropWhile is_word t = CHR ''}'' # r"
    by (auto simp: Let_def split: if_splits list.splits)
  from d have ex: "\<exists>y\<in>set t. \<not> is_word y"
    by (metis dropWhile_eq_Nil_conv list.distinct(1))
  then have "takeWhile is_word (t @ u) = takeWhile is_word t"
    and "dropWhile is_word (t @ u) = dropWhile is_word t @ u"
    by (auto simp: takeWhile_append1 dropWhile_append1 dest: bspec)
  with c w d Cons show ?thesis by simp
qed

lemma match_placeholder_append_None:
  assumes "match_placeholder (c # t) = None"
  shows "match_placeholder (c # t @ CHR ''{'' # u) = None"
proof (cases "\<exists>y\<in>set t. \<not> is_word y")
  case True
  then have tw: "takeWhile is_word (t @ CHR ''{'' # u) = takeWhile is_word t"
    and dw: "dropWhile is_word (t @ CHR ''{'' # u) = dropWhile is_word t @ CHR ''{'' # u"
    by (auto simp: takeWhile_append1 dropWhile_append1 dest: bspec)
  from True obtain d r where d: "dropWhile is_word t = d # r"
    by (metis dropWhile_eq_Nil_conv list.exhaust)
  from assms d have "c \<noteq> CHR ''{'' \<or> takeWhile is_word t = [] \<or> d \<noteq> CHR ''}''"
    by (auto simp: Let_def split: if_splits)
  with tw dw d show ?thesis by (auto simp: Let_def)
next
  case False
  then have "takeWhile is_word (t @ CHR ''{'' # u) = t"
    and "dropWhile is_word (t @ CHR ''{'' # u) = CHR ''{'' # u"
    by (simp_all add: not_word_braces)
  then show ?thesis by (simp add: Let_def)
qed

lemma replace_all_token:
  assumes "x \<noteq> []" and "\<forall>c\<in>set x. is_word c"
  shows "replace_all fn (pre @ CHR ''{'' # x @ CHR ''}'' # post) =
         replace_all fn pre @ fn x @ replace_all fn post"
proof (induction fn pre rule: replace_all.induct)
  case (1 fn)
  from assms show ?case
    by (simp add: match_placeholder_token del: match_placeholder.simps)
next
  case (2 fn c t)
  show ?case
  proof (cases "match_placeholder (c # t)")
    case None
    from match_placeholder_append_None [OF None]
    have "match_placeholder (c # t @ CHR ''{'' # x @ CHR ''}'' # post) = None" by simp
    with None "2.IH" show ?thesis by (simp del: match_placeholder.simps)
  next
    case (Some a)
    obtain w r where a: "a = (w, r)" by (cases a)
    from match_placeholder_append [OF Some [unfolded a]]
    have "match_placeholder (c # t @ CHR ''{'' # x @ CHR ''}'' # post) =
          Some (w, r @ CHR ''{'' # x @ CHR ''}'' # post)" by simp
    with Some a "2.IH" show ?thesis by (simp del: match_placeholder.simps)
  qed
qed

section \<open>The calls of a validation pass\<close>

lemma validations_loop_inputs:
  "inputs (snd (validations_loop labels a rs b p)) = inputs p"
  by (induction rs arbitrary: b p)
     (auto simp: Let_def getValue_def displayError_def hideError_def split: outcome.splits)

lemma validations_loop_trace:
  "trace (snd (validations_loop labels a rs b p)) = trace p @ field_calls labels (inputs p) a rs"
  by (induction rs arbitrary: b p)
     (auto simp: Let_def getValue_def displayError_def hideError_def split: outcome.splits)

lemma validations_loop_result:
  "fst (validations_loop labels a rs b p) = (b \<and> (\<forall>r\<in>set rs. r (inputs p) (inputs p a) = Valid))"
  by (induction rs arbitrary: b p)
     (auto simp: Let_def getValue_def displayError_def hideError_def split: outcome.splits)

lemma settings_loop_inputs:
  "inputs (snd (settings_loop labels es b p)) = inputs p"
proof (induction es arbitrary: b p)
  case Nil
  show ?case by simp
next
  case (Cons e es)
  obtain a rs where e: "e = (a, rs)" by (cases e)
  obtain b' p' where l: "validations_loop labels a rs b p = (b', p')"
    by (cases "validations_loop labels a rs b p")
  from validations_loop_inputs [of labels a rs b p] l have "inputs p' = inputs p" by simp
  with Cons.IH [of b' p'] e l show ?case by simp
qed

lemma settings_loop_trace:
  "trace (snd (settings_loop labels es b p)) =
   trace p @ concat (map (\<lambda>(a, rs). field_calls labels (inputs p) a rs) es)"
proof (induction es arbitrary: b p)
  case Nil
  show ?case by simp
next
  case (Cons e es)
  obtain a rs where e: "e = (a, rs)" by (cases e)
  obtain b' p' where l: "validations_loop labels a rs b p = (b', p')"
    by (cases "validations_loop labels a rs b p")
  from validations_loop_inputs [of labels a rs b p] l have i: "inputs p' = inputs p" by simp
  from validations_loop_trace [of labels a rs b p] l
  have t: "trace p' = trace p @ field_calls labels (inputs p) a rs" by simp
  from Cons.IH [of b' p'] e l i t show ?case by simp
qed

lemma settings_loop_result:
  "fst (settings_loop labels es b p) =
   (b \<and> (\<forall>(a, rs)\<in>set es. \<forall>r\<in>set rs. r (inputs p) (inputs p a) = Valid))"
proof (induction es arbitrary: b p)
  case Nil
  show ?case by simp
next
  case (Cons e es)
  obtain a rs where e: "e = (a, rs)" by (cases e)
  obtain b' p' where l: "validations_loop labels a rs b p = (b', p')"
    by (cases "validations_loop labels a rs b p")
  from validations_loop_inputs [of labels a rs b p] l have i: "inputs p' = inputs p" by simp
  from validations_loop_result [of labels a rs b p] l
  have r: "b' = (b \<and> (\<forall>r\<in>set rs. r (inputs p) (inputs p a) = Valid))" by simp
  from Cons.IH [of b' p'] e l i r show ?case by auto
qed

lemma field_calls_attribute:
  "c \<in> set (field_calls labels vals a rs) \<Longrightarrow> call_attribute c = a"
  by (induction rs) (auto split: outcome.splits)

lemma calls_for_field_calls:
  "calls_for a (field_calls labels vals b rs) =
   (if b = a then field_calls labels vals b rs else [])"
  unfolding calls_for_def
  by (auto simp: filter_empty_conv filter_id_conv dest: field_calls_attribute)

lemma calls_for_append: "calls_for a (xs @ ys) = calls_for a xs @ calls_for a ys"
  by (simp add: calls_for_def)

lemma calls_for_Nil: "calls_for a [] = []"
  by (simp add: calls_for_def)

lemma calls_for_other_entries:
  "a \<notin> fst ` set es \<Longrightarrow>
   calls_for a (concat (map (\<lambda>(b, qs). field_calls labels vals b qs) es)) = []"
  by (induction es) (auto simp: calls_for_append calls_for_field_calls calls_for_Nil)

lemma calls_for_entries:
  "distinct (map fst es) \<Longrightarrow> (a, rs) \<in> set es \<Longrightarrow>
   calls_for a (concat (map (\<lambda>(b, qs). field_calls labels vals b qs) es)) =
   field_calls labels vals a rs"
proof (induction es)
  case Nil
  then show ?case by simp
next
  case (Cons e es)
  obtain b qs where e: "e = (b, qs)" by (cases e)
  show ?case
  proof (cases "b = a")
    case True
    with Cons.prems e have "qs = rs" and "a \<notin> fst ` set es"
      by (auto simp: image_iff)
    with True e show ?thesis
      by (simp add: calls_for_append calls_for_field_calls calls_for_other_entries)
  next
    case False
    with Cons e show ?thesis
      by (auto simp: calls_for_append calls_for_field_calls)
  qed
qed

lemma displayed_append: "displayed a (xs @ ys) = displayed a xs @ displayed a ys"
  by (induction a xs rule: displayed.induct) auto

lemma displayed_calls_for: "displayed a (calls_for a cs) = displayed a cs"
  by (induction a cs rule: displayed.induct) (auto simp: calls_for_def)

lemma field_calls_pass:
  "\<forall>r\<in>set rs. r vals (vals a) = Valid \<Longrightarrow>
   field_calls labels vals a rs =
   concat (replicate (length rs) [Validation a (vals a) Valid, DisplayError a []])"
  by (induction rs) auto

lemma field_calls_first_failure:
  "\<forall>q\<in>set pre. q vals (vals a) = Valid \<Longrightarrow> r vals (vals a) = Invalid m \<Longrightarrow>
   field_calls labels vals a (pre @ r # post) =
   concat (replicate (length pre) [Validation a (vals a) Valid, DisplayError a []]) @
   [Validation a (vals a) (Invalid m),
    DisplayError a (replaceWithPlaceholders m [''attribute'' \<mapsto> label_of labels a] True)]"
  by (induction pre) auto

lemma displayed_hides:
  "displayed a (concat (replicate n [Validation a v Valid, DisplayError a []])) = replicate n []"
  by (induction n) auto

lemmas class_defs = is_word_def is_letter_def is_digit_def

lemmas render_defs = replaceWithPlaceholders_def placeholder_value_def lookup_def js_or_def
  Object_prototype_def

lemmas number_defs = number_to_string_def number_text_def round_double_def digit_char_def
  show_nat.simps

lemmas email_defs = email_def email_match_here_def is_local_def is_alnum_def class_defs

lemma digit_char_value: "d < 10 \<Longrightarrow> (of_char (digit_char d) :: nat) = 48 + d"
proof -
  assume "d < 10"
  then have "d \<in> {0, 1, 2, 3, 4, 5, 6, 7, 8, 9}" by auto
  then show ?thesis by (auto simp: digit_char_def)
qed

lemma read_nat_snoc: "read_nat (s @ [c]) = 10 * read_nat s + (of_char c - 48)"
  by (simp add: read_nat_def)

lemma read_nat_show_nat: "read_nat (show_nat n) = n"
proof (induction n rule: show_nat.induct)
  case (1 n)
  show ?case
  proof (cases "n < 10")
    case True
    then show ?thesis by (simp add: show_nat.simps read_nat_def digit_char_value)
  next
    case False
    have "read_nat (show_nat n) =
          10 * read_nat (show_nat (n div 10)) + (of_char (digit_char (n mod 10)) - 48)"
      using False by (subst show_nat.simps) (simp add: read_nat_snoc)
    with False "1.IH" show ?thesis by (simp add: digit_char_value)
  qed
qed

lemma number_text_safe: "x < 2 ^ 53 \<Longrightarrow> number_text x = show_nat x"
proof -
  assume a: "x < 2 ^ 53"
  then have rd: "round_double x = x" by (simp add: round_double_def)
  have "(2::nat) ^ 53 \<le> 2 ^ 1024" by (rule power_increasing) simp_all
  with a have b: "\<not> 2 ^ 1024 \<le> x" by linarith
  show ?thesis
    unfolding number_text_def rd Let_def using a b by (simp only: if_True if_False)
qed

lemma number_to_string_safe:
  "0 \<le> i \<Longrightarrow> i < 2 ^ 53 \<Longrightarrow> number_to_string i = show_nat (nat i)"
proof -
  assume a: "0 \<le> i" "i < 2 ^ 53"
  then have "nat i < 2 ^ 53" by (simp add: nat_less_iff)
  then have "number_text (nat i) = show_nat (nat i)" by (rule number_text_safe)
  with a show ?thesis by (simp add: number_to_string_def)
qed

lemma number_to_string_3: "number_to_string 3 = ''3''"
  by (simp add: number_defs)

lemma number_to_string_5: "number_to_string 5 = ''5''"
  by (simp add: number_defs)

lemma number_to_string_16: "number_to_string 16 = ''16''"
  by (simp add: number_defs)

lemma number_text_1e21: "number_text 1000000000000000000000 = ''1e+21''"
proof -
  have rd: "round_double 1000000000000000000000 = 1000000000000000000000"
    by (simp add: round_double_def bitlen.simps)
  have ln: "length (show_nat 1000000000000000000000) = 22"
    by (simp add: show_nat.simps)
  have sh: "shortest 1000000000000000000000 1 22 = 1000000000000000000000"
    by (simp add: shortest.simps rounds_to_def bitlen.simps)
  show ?thesis
    unfolding number_text_def Let_def rd
    by (simp only: ln sh) (simp add: digit_char_def show_nat.simps)
qed

lemma number_to_string_1e21: "number_to_string 1000000000000000000000 = ''1e+21''"
  by (simp add: number_to_string_def number_text_1e21)

lemma number_text_2p60: "number_text 1152921504606846976 = ''1152921504606847000''"
proof -
  have rd: "round_double 1152921504606846976 = 1152921504606846976"
    by (simp add: round_double_def bitlen.simps)
  have ln: "length (show_nat 1152921504606846976) = 19"
    by (simp add: show_nat.simps)
  have sh: "shortest 1152921504606846976 1 19 = 1152921504606847000"
    by (simp add: shortest.simps rounds_to_def bitlen.simps)
  have l2: "length (show_nat 1152921504606847000) = 19"
    by (simp add: show_nat.simps)
  show ?thesis
    unfolding number_text_def Let_def rd
    by (simp only: ln sh l2) (simp add: digit_char_def show_nat.simps)
qed

lemma number_to_string_2p60:
  "number_to_string 1152921504606846976 = ''1152921504606847000''"
  by (simp add: number_to_string_def number_text_2p60)

lemma render_token:
  assumes "x \<noteq> []" and "\<forall>c\<in>set x. is_word c"
  shows "replaceWithPlaceholders (pre @ CHR ''{'' # x @ CHR ''}'' # post) replacements unwrap =
         replaceWithPlaceholders pre replacements unwrap @
         placeholder_value replacements unwrap x @
         replaceWithPlaceholders post replacements unwrap"
  using assms by (simp add: replaceWithPlaceholders_def replace_all_token)

lemma placeholder_value_falsy:
  "\<not> truthy (lookup replacements x) \<Longrightarrow>
   placeholder_value replacements unwrap x = (if unwrap then x else CHR ''{'' # x @ ''}'')"
  by (simp add: placeholder_value_def js_or_def)

lemma validate_with_result:
  "fst (validate_with labels entries p) =
   (\<forall>(a, rs)\<in>set entries. \<forall>r\<in>set rs. r (\<lambda>b. getValue b p) (getValue a p) = Valid)"
  by (simp add: validate_with_def settings_loop_result getValue_def)

lemma validate_with_emitted:
  "emitted p (snd (validate_with labels entries p)) =
   concat (map (\<lambda>(a, rs). field_calls labels (inputs p) a rs) entries)"
  by (simp add: validate_with_def settings_loop_trace emitted_def)

lemma validate_with_inputs:
  "inputs (snd (validate_with labels entries p)) = inputs p"
  by (simp add: validate_with_def settings_loop_inputs)

lemma validate_with_calls_for:
  "distinct (map fst entries) \<Longrightarrow> (a, rs) \<in> set entries \<Longrightarrow>
   calls_for a (emitted p (snd (validate_with labels entries p))) =
   field_calls labels (inputs p) a rs"
  by (simp add: validate_with_emitted calls_for_entries)

lemma betweenLength_3_16: "betweenLength 3 16 gv v \<noteq> Valid"
  by (simp add: betweenLength_def)

section \<open>The templater\<close>







text \<open>
  C10. With \<open>unwrap\<close> a placeholder whose replacement is falsy becomes its bare name,
  not the falsy value: \<open>{x}\<close> rendered with \<open>{x: ""}\<close> or with \<open>{x: 0}\<close> is \<open>x\<close>.
\<close>

theorem falsy_replacement_unwrapped:
  "(x \<noteq> [] \<and> (\<forall>c\<in>set x. is_word c) \<and> replacements x = Some v \<and> \<not> truthy v \<longrightarrow>
      replaceWithPlaceholders (pre @ CHR ''{'' # x @ CHR ''}'' # post) replacements True =
        replaceWithPlaceholders pre replacements True @ x @
        replaceWithPlaceholders post replacements True) \<and>
   replaceWithPlaceholders ''{x}'' [''x'' \<mapsto> JStr []] True = ''x'' \<and>
   replaceWithPlaceholders ''{x}'' [''x'' \<mapsto> JNum 0] True = ''x''"
proof (intro conjI impI)
  assume a: "x \<noteq> [] \<and> (\<forall>c\<in>set x. is_word c) \<and> replacements x = Some v \<and> \<not> truthy v"
  then have f: "\<not> truthy (lookup replacements x)" by (simp add: lookup_def)
  from a show "replaceWithPlaceholders (pre @ CHR ''{'' # x @ CHR ''}'' # post) replacements True =
        replaceWithPlaceholders pre replacements True @ x @
        replaceWithPlaceholders post replacements True"
    by (simp add: render_token placeholder_value_falsy [OF f])
qed (simp_all add: render_defs class_defs)

theorem falsy_replacement_unwrapped_witness:
  "replaceWithPlaceholders ''at least {min}'' [''min'' \<mapsto> JNum 0] True = ''at least min''"
  using falsy_replacement_unwrapped [of "''min''" "[''min'' \<mapsto> JNum 0]" "JNum 0" "''at least ''" "[]"]
  by (simp add: class_defs replaceWithPlaceholders_def)

section \<open>The validators\<close>

text \<open>
  C8. \<open>minLength(min)\<close> returns \<open>true\<close> exactly on the values of length at least
  \<open>min\<close>. On every other value it returns the template in which \<open>{min}\<close> has become
  what Number::toString prints for \<open>min\<close> and \<open>{attribute}\<close> still stands: the
  validator fails only for a positive \<open>min\<close>, which is truthy, and \<open>attribute\<close> is no
  property of \<open>{min}\<close>. Below \<open>2^53\<close> the text printed is the decimal numeral of
  \<open>min\<close>; \<open>minLength(3)\<close> prints \<open>3\<close> and \<open>minLength(1e21)\<close> prints \<open>1e+21\<close>.
\<close>

theorem minLength_outcome:
  "(minLength mn gv v = Valid \<longleftrightarrow> int (length v) \<ge> mn) \<and>
   minLength mn gv v =
     (if int (length v) \<ge> mn then Valid
      else Invalid (''The {attribute} must be at least '' @ number_to_string mn @
             '' characters.'')) \<and>
   (0 \<le> mn \<and> mn < 2 ^ 53 \<longrightarrow>
      number_to_string mn = show_nat (nat mn) \<and> read_nat (number_to_string mn) = nat mn) \<and>
   minLength 3 gv ''ab'' = Invalid ''The {attribute} must be at least 3 characters.'' \<and>
   minLength 1000000000000000000000 gv ''ab'' =
     Invalid ''The {attribute} must be at least 1e+21 characters.''"
proof -
  have r: "replaceWithPlaceholders ''The {attribute} must be at least {min} characters.''
          [''min'' \<mapsto> JNum mn] False =
        ''The {attribute} must be at least '' @ number_to_string mn @ '' characters.''"
    if "mn \<noteq> 0" for mn
    using that by (simp add: render_defs class_defs)
  have nz: "mn \<noteq> 0" if "\<not> int (length v) \<ge> mn"
    using that by auto
  have eq: "minLength mn gv v =
     (if int (length v) \<ge> mn then Valid
      else Invalid (''The {attribute} must be at least '' @ number_to_string mn @
             '' characters.''))" for mn v
    using r [of mn] by (cases "mn = 0") (simp_all add: minLength_def)
  show ?thesis
    by (simp add: eq number_to_string_3 number_to_string_1e21 number_to_string_safe
        read_nat_show_nat)
qed

theorem minLength_outcome_witness:
  "minLength 16 id ''abc'' = Invalid ''The {attribute} must be at least 16 characters.'' \<and>
   number_to_string 16 = ''16'' \<and> read_nat ''16'' = 16"
  using minLength_outcome [of 16 id "''abc''"]
  by (simp add: digit_char_def read_nat_def show_nat.simps)

text \<open>
  C7. \<open>confirmation(a)\<close> returns \<open>true\<close> exactly when its argument equals what
  \<open>getValue(a)\<close> returns on the page as it is when the validator is called. Nothing of
  the page is kept in the closure: after the input \<open>a\<close> has been set to \<open>w\<close>, the same
  validator accepts \<open>w\<close> and nothing else.
\<close>

theorem confirmation_reads_live_value:
  "(confirmation a (\<lambda>b. getValue b p) v = Valid \<longleftrightarrow> v = getValue a p) \<and>
   (confirmation a (\<lambda>b. getValue b (p\<lparr>inputs := (inputs p)(a := w)\<rparr>)) v = Valid \<longleftrightarrow> v = w) \<and>
   confirmation a gv v =
     (if v = gv a then Valid else Invalid ''The {attribute} confirmation does not match.'')"
  by (simp add: confirmation_def getValue_def)

text \<open>
  C2, as the specification states it, fails where a bound is zero:
  \<open>betweenLength(0, 5)\<close> rejects \<open>"a"\<close> with a message in which \<open>{min}\<close> still stands,
  since the replacement \<open>0\<close> is falsy.
\<close>

theorem betweenLength_zero_counterexample:
  "betweenLength 0 5 id ''a'' =
     Invalid ''The {attribute} must be between {min} and 5 characters.'' \<and>
   betweenLength 0 5 id ''a'' \<noteq>
     Invalid ''The {attribute} must be between 0 and 5 characters.''"
  by (simp add: betweenLength_def render_defs class_defs number_defs)

text \<open>
  C2, amended. \<open>betweenLength(min, max)\<close> returns \<open>true\<close> exactly when the length of
  the value is at most \<open>min\<close> and at least \<open>max\<close>. Otherwise it returns the template
  with \<open>{min}\<close> and \<open>{max}\<close> replaced by what Number::toString prints for the two
  bounds, except that the placeholder of a bound that is zero is left as it is. Below
  \<open>2^53\<close> the text printed for a positive bound is its decimal numeral;
  \<open>betweenLength(3, 16)\<close> prints \<open>3\<close> and \<open>16\<close>, and the bounds \<open>1e21\<close> and \<open>2^60\<close> are
  printed as \<open>1e+21\<close> and \<open>1152921504606847000\<close>.
\<close>

theorem betweenLength_outcome:
  "(betweenLength mn mx gv v = Valid \<longleftrightarrow> int (length v) \<le> mn \<and> int (length v) \<ge> mx) \<and>
   betweenLength mn mx gv v =
     (if int (length v) \<le> mn \<and> int (length v) \<ge> mx then Valid
      else Invalid (''The {attribute} must be between '' @
             (if mn = 0 then ''{min}'' else number_to_string mn) @ '' and '' @
             (if mx = 0 then ''{max}'' else number_to_string mx) @ '' characters.'')) \<and>
   (0 \<le> mn \<and> mn < 2 ^ 53 \<longrightarrow>
      number_to_string mn = show_nat (nat mn) \<and> read_nat (number_to_string mn) = nat mn) \<and>
   betweenLength 3 16 gv ''abcde'' =
     Invalid ''The {attribute} must be between 3 and 16 characters.'' \<and>
   betweenLength 0 1000000000000000000000 gv ''a'' =
     Invalid ''The {attribute} must be between {min} and 1e+21 characters.'' \<and>
   betweenLength 1152921504606846976 5 gv ''a'' =
     Invalid ''The {attribute} must be between 1152921504606847000 and 5 characters.''"
proof -
  have eq: "betweenLength mn mx gv v =
     (if int (length v) \<le> mn \<and> int (length v) \<ge> mx then Valid
      else Invalid (''The {attribute} must be between '' @
             (if mn = 0 then ''{min}'' else number_to_string mn) @ '' and '' @
             (if mx = 0 then ''{max}'' else number_to_string mx) @ '' characters.''))"
    for mn mx v
    by (simp add: betweenLength_def render_defs class_defs)
  show ?thesis
    by (simp add: eq number_to_string_3 number_to_string_5 number_to_string_16
        number_to_string_1e21 number_to_string_2p60 number_to_string_safe read_nat_show_nat)
qed

theorem betweenLength_outcome_witness:
  "betweenLength 5 0 id ''abcdefgh'' =
     Invalid ''The {attribute} must be between 5 and {max} characters.'' \<and>
   number_to_string 5 = ''5'' \<and> read_nat ''5'' = 5"
  using betweenLength_outcome [of 5 0 id "''abcdefgh''"]
  by (simp add: digit_char_def read_nat_def show_nat.simps)

section \<open>The validation pass\<close>

text \<open>
  C1. For entries with distinct keys, as those of an object are, and every page:
  \<open>validate\<close> returns \<open>true\<close> exactly when every validator of every field returns
  \<open>true\<close> on the value of its field. For a field whose first failing validator
  returns the error \<open>m\<close> after \<open>pre\<close> have passed, the result is \<open>false\<close> and the
  messages displayed for the field are one empty message for each validator of
  \<open>pre\<close> and then the rendering of \<open>m\<close>, nothing else. For a field whose validators
  all pass, every message displayed for it is empty.
\<close>

theorem validate_result_and_messages:
  assumes "distinct (map fst entries)"
  shows
  "(fst (validate_with labels entries p) \<longleftrightarrow>
      (\<forall>(a, rs)\<in>set entries. \<forall>r\<in>set rs. r (\<lambda>b. getValue b p) (getValue a p) = Valid)) \<and>
   (\<forall>a pre r post m.
      (a, pre @ r # post) \<in> set entries \<and>
      (\<forall>q\<in>set pre. q (\<lambda>b. getValue b p) (getValue a p) = Valid) \<and>
      r (\<lambda>b. getValue b p) (getValue a p) = Invalid m \<longrightarrow>
        \<not> fst (validate_with labels entries p) \<and>
        displayed a (emitted p (snd (validate_with labels entries p))) =
          replicate (length pre) [] @
          [replaceWithPlaceholders m [''attribute'' \<mapsto> label_of labels a] True]) \<and>
   (\<forall>a rs.
      (a, rs) \<in> set entries \<and>
      (\<forall>r\<in>set rs. r (\<lambda>b. getValue b p) (getValue a p) = Valid) \<longrightarrow>
        displayed a (emitted p (snd (validate_with labels entries p))) =
          replicate (length rs) [])"
proof (intro conjI allI impI)
  show "fst (validate_with labels entries p) \<longleftrightarrow>
      (\<forall>(a, rs)\<in>set entries. \<forall>r\<in>set rs. r (\<lambda>b. getValue b p) (getValue a p) = Valid)"
    by (rule validate_with_result)
next
  fix a pre r post m
  assume h: "(a, pre @ r # post) \<in> set entries \<and>
      (\<forall>q\<in>set pre. q (\<lambda>b. getValue b p) (getValue a p) = Valid) \<and>
      r (\<lambda>b. getValue b p) (getValue a p) = Invalid m"
  then have "\<exists>r\<in>set (pre @ r # post). r (\<lambda>b. getValue b p) (getValue a p) \<noteq> Valid"
    by auto
  with h show "\<not> fst (validate_with labels entries p)"
    unfolding validate_with_result by blast
  from h have pre: "\<forall>q\<in>set pre. q (inputs p) (inputs p a) = Valid"
    and r: "r (inputs p) (inputs p a) = Invalid m"
    by (simp_all add: getValue_def)
  have "displayed a (emitted p (snd (validate_with labels entries p))) =
        displayed a (calls_for a (emitted p (snd (validate_with labels entries p))))"
    by (simp add: displayed_calls_for)
  also from h have "\<dots> = displayed a (field_calls labels (inputs p) a (pre @ r # post))"
    by (simp add: validate_with_calls_for [OF assms, of a "pre @ r # post"])
  also have "\<dots> = replicate (length pre) [] @
          [replaceWithPlaceholders m [''attribute'' \<mapsto> label_of labels a] True]"
    using pre r
    by (simp add: field_calls_first_failure [where vals = "inputs p" and a = a and pre = pre and r = r]
        displayed_append displayed_hides)
  finally show "displayed a (emitted p (snd (validate_with labels entries p))) =
          replicate (length pre) [] @
          [replaceWithPlaceholders m [''attribute'' \<mapsto> label_of labels a] True]" .
next
  fix a rs
  assume h: "(a, rs) \<in> set entries \<and>
      (\<forall>r\<in>set rs. r (\<lambda>b. getValue b p) (getValue a p) = Valid)"
  then have pass: "\<forall>r\<in>set rs. r (inputs p) (inputs p a) = Valid"
    by (simp add: getValue_def)
  have "displayed a (emitted p (snd (validate_with labels entries p))) =
        displayed a (calls_for a (emitted p (snd (validate_with labels entries p))))"
    by (simp add: displayed_calls_for)
  also from h have "\<dots> = displayed a (field_calls labels (inputs p) a rs)"
    by (simp add: validate_with_calls_for [OF assms, of a rs])
  also have "\<dots> = replicate (length rs) []"
    using pass
    by (simp add: field_calls_pass [where vals = "inputs p" and a = a and rs = rs] displayed_hides)
  finally show "displayed a (emitted p (snd (validate_with labels entries p))) =
          replicate (length rs) []" .
qed

theorem validate_result_and_messages_witness:
  "\<not> fst (validate_with LABELS [(''name'', [required]), (''email'', [required, email])]
      \<lparr>inputs = (\<lambda>a. [])(''email'' := ''bad''), form_text = (\<lambda>a. []), trace = []\<rparr>) \<and>
   displayed ''name''
     (emitted \<lparr>inputs = (\<lambda>a. [])(''email'' := ''bad''), form_text = (\<lambda>a. []), trace = []\<rparr>
       (snd (validate_with LABELS [(''name'', [required]), (''email'', [required, email])]
          \<lparr>inputs = (\<lambda>a. [])(''email'' := ''bad''), form_text = (\<lambda>a. []), trace = []\<rparr>))) =
     [''The name field is required.''] \<and>
   displayed ''email''
     (emitted \<lparr>inputs = (\<lambda>a. [])(''email'' := ''bad''), form_text = (\<lambda>a. []), trace = []\<rparr>
       (snd (validate_with LABELS [(''name'', [required]), (''email'', [required, email])]
          \<lparr>inputs = (\<lambda>a. [])(''email'' := ''bad''), form_text = (\<lambda>a. []), trace = []\<rparr>))) =
     [[], ''The email must be a valid email address.''] \<and>
   fst (validate_with LABELS [(''name'', [required]), (''email'', [required, email])]
      \<lparr>inputs = (\<lambda>a. [])(''name'' := ''Ann'', ''email'' := ''a@b.co''),
       form_text = (\<lambda>a. []), trace = []\<rparr>) \<and>
   displayed ''email''
     (emitted \<lparr>inputs = (\<lambda>a. [])(''name'' := ''Ann'', ''email'' := ''a@b.co''),
         form_text = (\<lambda>a. []), trace = []\<rparr>
       (snd (validate_with LABELS [(''name'', [required]), (''email'', [required, email])]
          \<lparr>inputs = (\<lambda>a. [])(''name'' := ''Ann'', ''email'' := ''a@b.co''),
           form_text = (\<lambda>a. []), trace = []\<rparr>))) =
     [[], []]"
proof -
  let ?reg = "[(''name'', [required]), (''email'', [required, email])]"
  let ?bad = "\<lparr>inputs = (\<lambda>a. [])(''email'' := ''bad''), form_text = (\<lambda>a. []), trace = []\<rparr>"
  let ?good = "\<lparr>inputs = (\<lambda>a. [])(''name'' := ''Ann'', ''email'' := ''a@b.co''),
       form_text = (\<lambda>a. []), trace = []\<rparr>"
  have d: "distinct (map fst ?reg)" by simp
  note bad = validate_result_and_messages [OF d, of LABELS ?bad]
  note good = validate_result_and_messages [OF d, of LABELS ?good]
  have e1: "email (\<lambda>b. getValue b ?bad) (getValue ''email'' ?bad) =
      Invalid ''The {attribute} must be a valid email address.''"
    by (simp add: getValue_def email_defs)
  have e2: "email (\<lambda>b. getValue b ?good) (getValue ''email'' ?good) = Valid"
    by (simp add: getValue_def email_defs)
  from bad have "\<not> fst (validate_with LABELS ?reg ?bad) \<and>
      displayed ''name'' (emitted ?bad (snd (validate_with LABELS ?reg ?bad))) =
        replicate (length ([] :: validation list)) [] @
        [replaceWithPlaceholders ''The {attribute} field is required.''
           [''attribute'' \<mapsto> label_of LABELS ''name''] True]"
    by (elim conjE allE [of _ "''name''"] allE [of _ "[] :: validation list"]
          allE [of _ required] allE [of _ "''The {attribute} field is required.''"])
       (simp add: required_def getValue_def)
  moreover from bad e1 have
     "displayed ''email'' (emitted ?bad (snd (validate_with LABELS ?reg ?bad))) =
        replicate (length [required]) [] @
        [replaceWithPlaceholders ''The {attribute} must be a valid email address.''
           [''attribute'' \<mapsto> label_of LABELS ''email''] True]"
    by (elim conjE allE [of _ "''email''"] allE [of _ "[required]"]
          allE [of _ email] allE [of _ "[] :: validation list"]
          allE [of _ "''The {attribute} must be a valid email address.''"])
       (simp add: required_def getValue_def)
  moreover from good e2 have "fst (validate_with LABELS ?reg ?good)"
    by (simp add: required_def getValue_def)
  moreover from good e2 have
     "displayed ''email'' (emitted ?good (snd (validate_with LABELS ?reg ?good))) =
        replicate (length [required, email]) []"
    by (elim conjE allE [of _ "''email''"] allE [of _ "[required, email]"])
       (simp add: required_def getValue_def)
  ultimately show ?thesis
    by (simp add: render_defs class_defs label_of_def LABELS_def)
qed

text \<open>
  C3. With the settings of the script \<open>validate\<close> returns \<open>false\<close> on every page: no
  value has a length that is at most 3 and at least 16, so \<open>betweenLength(3, 16)\<close>
  rejects every username, and the empty username is rejected by \<open>required\<close> before.
\<close>

theorem validate_never_true:
  "\<not> fst (validate p) \<and> betweenLength 3 16 gv v \<noteq> Valid \<and> required gv [] \<noteq> Valid"
proof -
  have "(''username'', [required, betweenLength 3 16]) \<in> set settings"
    by (simp add: settings_def)
  moreover have "betweenLength 3 16 (\<lambda>b. getValue b p) (getValue ''username'' p) \<noteq> Valid"
    by (rule betweenLength_3_16)
  ultimately have "\<not> fst (validate p)"
    unfolding validate_def validate_with_result by fastforce
  then show ?thesis by (simp add: betweenLength_3_16 required_def)
qed

text \<open>
  C4. Once a validator of a field fails, no later validator of that field is called
  in the pass. If \<open>pre\<close> pass and \<open>r\<close> fails with \<open>m\<close>, the calls of the pass for
  the field are: each validator of \<open>pre\<close> followed by \<open>hideError\<close>, then \<open>r\<close>, then
  \<open>displayError\<close> with the rendering of \<open>m\<close>; the validators behind \<open>r\<close> do not occur,
  and the loop over the field gives the same result and page as if they were not
  there. For the validators \<open>required\<close>, \<open>minLength(5)\<close> and an empty input, the only
  validator called is \<open>required\<close> and the only message is its own.
\<close>

theorem first_failure_ends_field:
  "(distinct (map fst entries) \<and> (a, pre @ r # post) \<in> set entries \<and>
    (\<forall>q\<in>set pre. q (\<lambda>b. getValue b p) (getValue a p) = Valid) \<and>
    r (\<lambda>b. getValue b p) (getValue a p) = Invalid m \<longrightarrow>
      calls_for a (emitted p (snd (validate_with labels entries p))) =
        concat (replicate (length pre) [Validation a (getValue a p) Valid, DisplayError a []]) @
        [Validation a (getValue a p) (Invalid m),
         DisplayError a (replaceWithPlaceholders m [''attribute'' \<mapsto> label_of labels a] True)] \<and>
      validations_loop labels a (pre @ r # post) isValid p =
        validations_loop labels a (pre @ [r]) isValid p) \<and>
   (getValue a p = [] \<longrightarrow>
      emitted p (snd (validations_loop labels a [required, minLength 5] isValid p)) =
        [Validation a [] (Invalid ''The {attribute} field is required.''),
         DisplayError a (replaceWithPlaceholders ''The {attribute} field is required.''
           [''attribute'' \<mapsto> label_of labels a] True)])"
proof (intro conjI impI)
  assume h: "distinct (map fst entries) \<and> (a, pre @ r # post) \<in> set entries \<and>
    (\<forall>q\<in>set pre. q (\<lambda>b. getValue b p) (getValue a p) = Valid) \<and>
    r (\<lambda>b. getValue b p) (getValue a p) = Invalid m"
  then have pre: "\<forall>q\<in>set pre. q (inputs p) (inputs p a) = Valid"
    and r: "r (inputs p) (inputs p a) = Invalid m"
    by (simp_all add: getValue_def)
  from h have "calls_for a (emitted p (snd (validate_with labels entries p))) =
      field_calls labels (inputs p) a (pre @ r # post)"
    by (simp add: validate_with_calls_for [of entries a "pre @ r # post"])
  with pre r field_calls_first_failure [where vals = "inputs p" and a = a and pre = pre and r = r]
  show "calls_for a (emitted p (snd (validate_with labels entries p))) =
        concat (replicate (length pre) [Validation a (getValue a p) Valid, DisplayError a []]) @
        [Validation a (getValue a p) (Invalid m),
         DisplayError a (replaceWithPlaceholders m [''attribute'' \<mapsto> label_of labels a] True)]"
    by (simp add: getValue_def)
  from pre r show "validations_loop labels a (pre @ r # post) isValid p =
        validations_loop labels a (pre @ [r]) isValid p"
    by (induction pre arbitrary: p)
       (simp_all add: Let_def getValue_def hideError_def displayError_def)
next
  assume "getValue a p = []"
  then show "emitted p (snd (validations_loop labels a [required, minLength 5] isValid p)) =
        [Validation a [] (Invalid ''The {attribute} field is required.''),
         DisplayError a (replaceWithPlaceholders ''The {attribute} field is required.''
           [''attribute'' \<mapsto> label_of labels a] True)]"
    by (simp add: emitted_def getValue_def required_def displayError_def)
qed

theorem first_failure_ends_field_witness:
  "calls_for ''password''
     (emitted \<lparr>inputs = (\<lambda>a. []), form_text = (\<lambda>a. []), trace = []\<rparr>
       (snd (validate_with LABELS [(''password'', [required, minLength 5])]
          \<lparr>inputs = (\<lambda>a. []), form_text = (\<lambda>a. []), trace = []\<rparr>))) =
     [Validation ''password'' [] (Invalid ''The {attribute} field is required.''),
      DisplayError ''password'' ''The password field is required.''] \<and>
   validations_loop LABELS ''password'' [required, minLength 5] True
       \<lparr>inputs = (\<lambda>a. []), form_text = (\<lambda>a. []), trace = []\<rparr> =
     validations_loop LABELS ''password'' [required] True
       \<lparr>inputs = (\<lambda>a. []), form_text = (\<lambda>a. []), trace = []\<rparr> \<and>
   emitted \<lparr>inputs = (\<lambda>a. []), form_text = (\<lambda>a. []), trace = []\<rparr>
     (snd (validations_loop LABELS ''confirm-password'' [required, minLength 5] True
        \<lparr>inputs = (\<lambda>a. []), form_text = (\<lambda>a. []), trace = []\<rparr>)) =
     [Validation ''confirm-password'' [] (Invalid ''The {attribute} field is required.''),
      DisplayError ''confirm-password'' ''The password field is required.'']"
proof -
  let ?P = "\<lparr>inputs = (\<lambda>a. []), form_text = (\<lambda>a. []), trace = []\<rparr>"
  note a = first_failure_ends_field
    [where entries = "[(''password'', [required, minLength 5])]" and a = "''password''"
       and pre = "[]" and r = required and post = "[minLength 5]" and p = ?P
       and m = "''The {attribute} field is required.''" and labels = LABELS and isValid = True]
  note b = first_failure_ends_field
    [where a = "''confirm-password''" and p = ?P and labels = LABELS and isValid = True]
  have r: "required (\<lambda>b. getValue b ?P) (getValue ''password'' ?P) =
      Invalid ''The {attribute} field is required.''"
    by (simp add: required_def getValue_def)
  have g: "getValue ''confirm-password'' ?P = []"
    by (simp add: getValue_def)
  from a r have "calls_for ''password''
     (emitted ?P (snd (validate_with LABELS [(''password'', [required, minLength 5])] ?P))) =
     [Validation ''password'' (getValue ''password'' ?P) (Invalid ''The {attribute} field is required.''),
      DisplayError ''password'' (replaceWithPlaceholders ''The {attribute} field is required.''
        [''attribute'' \<mapsto> label_of LABELS ''password''] True)] \<and>
     validations_loop LABELS ''password'' [required, minLength 5] True ?P =
     validations_loop LABELS ''password'' [required] True ?P"
    by simp
  moreover from b g have "emitted ?P
     (snd (validations_loop LABELS ''confirm-password'' [required, minLength 5] True ?P)) =
     [Validation ''confirm-password'' [] (Invalid ''The {attribute} field is required.''),
      DisplayError ''confirm-password'' (replaceWithPlaceholders ''The {attribute} field is required.''
        [''attribute'' \<mapsto> label_of LABELS ''confirm-password''] True)]"
    by blast
  ultimately show ?thesis
    by (simp add: render_defs class_defs label_of_def LABELS_def getValue_def)
qed

text \<open>
  C9. A second call of \<open>validate\<close>, right after the first, returns the same boolean
  and makes the same calls in the same order; so does \<open>validate\<close> for any labels and
  entries, and on any page with the same values of the inputs, whatever is displayed
  on it.
\<close>

theorem validate_twice:
  "fst (validate (snd (validate p))) = fst (validate p) \<and>
   emitted (snd (validate p)) (snd (validate (snd (validate p)))) =
     emitted p (snd (validate p)) \<and>
   fst (validate_with labels entries (snd (validate_with labels entries p))) =
     fst (validate_with labels entries p) \<and>
   emitted (snd (validate_with labels entries p))
       (snd (validate_with labels entries (snd (validate_with labels entries p)))) =
     emitted p (snd (validate_with labels entries p)) \<and>
   (inputs q = inputs p \<longrightarrow>
      fst (validate_with labels entries q) = fst (validate_with labels entries p) \<and>
      emitted q (snd (validate_with labels entries q)) =
        emitted p (snd (validate_with labels entries p)))"
  by (simp add: validate_def validate_with_result validate_with_emitted validate_with_inputs
      getValue_def)

theorem validate_twice_witness:
  "fst (validate \<lparr>inputs = (\<lambda>a. ''abc''), form_text = (\<lambda>a. ''old''),
          trace = [DisplayError ''name'' ''old'']\<rparr>) =
     fst (validate \<lparr>inputs = (\<lambda>a. ''abc''), form_text = (\<lambda>a. []), trace = []\<rparr>) \<and>
   emitted \<lparr>inputs = (\<lambda>a. ''abc''), form_text = (\<lambda>a. ''old''),
          trace = [DisplayError ''name'' ''old'']\<rparr>
     (snd (validate \<lparr>inputs = (\<lambda>a. ''abc''), form_text = (\<lambda>a. ''old''),
          trace = [DisplayError ''name'' ''old'']\<rparr>)) =
   emitted \<lparr>inputs = (\<lambda>a. ''abc''), form_text = (\<lambda>a. []), trace = []\<rparr>
     (snd (validate \<lparr>inputs = (\<lambda>a. ''abc''), form_text = (\<lambda>a. []), trace = []\<rparr>))"
  using validate_twice
    [where q = "\<lparr>inputs = (\<lambda>a. ''abc''), form_text = (\<lambda>a. ''old''),
          trace = [DisplayError ''name'' ''old'']\<rparr>"
       and p = "\<lparr>inputs = (\<lambda>a. ''abc''), form_text = (\<lambda>a. []), trace = []\<rparr>"
       and labels = LABELS and entries = settings]
  by (simp add: validate_def)

end
